theory Spec2Isabelle
  imports Complex_Main
begin

section \<open>JavaScript values\<close>

text \<open>
  Values that \<^verbatim>\<open>JSON.parse\<close> can return. A number is carried as the rational it is
  written as; every operation of the program reads it as the nearest double (see below).
  A property read that finds nothing yields \<^verbatim>\<open>undefined\<close>, which is \<open>None\<close> of type
  \<open>jsval\<close>; the same type stands for a value supplied by the caller of
  \<^verbatim>\<open>listenFrom\<close>.
\<close>

datatype json =
    JNull
  | JBool bool
  | JNum rat
  | JStr string
  | JArr "json list"
  | JObj "(string \<times> json) list"

type_synonym jsval = "json option"

subsection \<open>Numbers\<close>

text \<open>
  The values of a number at run time: a finite double, given by its exact value, the two
  infinities, and NaN. Negative zero is not told apart from zero: the program only
  compares numbers and tests their truthiness.
\<close>

datatype double = Fin rat | PInf | NInf | NaN

definition pow2 :: "int \<Rightarrow> rat" where
  "pow2 k = (if k \<ge> 0 then 2 ^ nat k else 1 / 2 ^ nat (- k))"

text \<open>The number of binary digits of \<open>n\<close>.\<close>

fun bits :: "nat \<Rightarrow> nat" where
  "bits n = (if n = 0 then 0 else Suc (bits (n div 2)))"

declare bits.simps [simp del]

text \<open>For \<open>x > 0\<close>, the \<open>e\<close> with \<open>2 ^ e \<le> x < 2 ^ (e + 1)\<close>.\<close>

definition exponent :: "rat \<Rightarrow> int" where
  "exponent x = (if x \<ge> 1 then int (bits (nat \<lfloor>x\<rfloor>)) - 1
                 else - int (bits (nat (\<lceil>1 / x\<rceil> - 1))))"

text \<open>The nearest integer, a tie going to the even one.\<close>

definition round_even :: "rat \<Rightarrow> int" where
  "round_even y =
     (let f = \<lfloor>y\<rfloor>; d = y - of_int f
      in if d < 1 / 2 then f else if d > 1 / 2 then f + 1 else if even f then f else f + 1)"

text \<open>
  Rounding to 53 significant binary digits, in steps of at least \<open>2 ^ - 1074\<close> (the
  subnormal range), a tie going to the even neighbour.
\<close>

definition rnd :: "rat \<Rightarrow> rat" where
  "rnd x = (if x = 0 then 0
            else let q = pow2 (max (exponent \<bar>x\<bar> - 52) (- 1074))
                 in of_int (round_even (x / q)) * q)"

text \<open>The double nearest to a rational: an infinity when the rounded value reaches \<open>2 ^ 1024\<close>.\<close>

definition to_double :: "rat \<Rightarrow> double" where
  "to_double x =
     (let r = rnd x
      in if r = 0 then Fin 0
         else if exponent \<bar>r\<bar> \<ge> 1024 then (if r > 0 then PInf else NInf)
         else Fin r)"

fun dneg :: "double \<Rightarrow> double" where
  "dneg (Fin a) = Fin (- a)"
| "dneg PInf = NInf"
| "dneg NInf = PInf"
| "dneg NaN = NaN"

fun dadd :: "double \<Rightarrow> double \<Rightarrow> double" where
  "dadd (Fin a) (Fin b) = to_double (a + b)"
| "dadd NaN y = NaN"
| "dadd x NaN = NaN"
| "dadd PInf NInf = NaN"
| "dadd NInf PInf = NaN"
| "dadd PInf y = PInf"
| "dadd x PInf = PInf"
| "dadd NInf y = NInf"
| "dadd x NInf = NInf"

definition dsub :: "double \<Rightarrow> double \<Rightarrow> double" where
  "dsub x y = dadd x (dneg y)"

fun dsign :: "double \<Rightarrow> int" where
  "dsign (Fin a) = (if a > 0 then 1 else if a < 0 then - 1 else 0)"
| "dsign PInf = 1"
| "dsign NInf = - 1"
| "dsign NaN = 0"

fun dmul :: "double \<Rightarrow> double \<Rightarrow> double" where
  "dmul (Fin a) (Fin b) = to_double (a * b)"
| "dmul NaN y = NaN"
| "dmul x NaN = NaN"
| "dmul x y = (if dsign x * dsign y > 0 then PInf
               else if dsign x * dsign y < 0 then NInf else NaN)"

text \<open>\<^verbatim>\<open>x < y\<close>: false whenever NaN is involved.\<close>

fun dlt :: "double \<Rightarrow> double \<Rightarrow> bool" where
  "dlt (Fin a) (Fin b) = (a < b)"
| "dlt NaN y = False"
| "dlt x NaN = False"
| "dlt x NInf = False"
| "dlt NInf y = True"
| "dlt PInf y = False"
| "dlt x PInf = True"

text \<open>\<^verbatim>\<open>x <= y\<close>.\<close>

definition dle :: "double \<Rightarrow> double \<Rightarrow> bool" where
  "dle x y = (dlt x y \<or> (x = y \<and> x \<noteq> NaN))"

subsection \<open>Truthiness and types\<close>

text \<open>Truthiness, as tested by \<^verbatim>\<open>!x\<close>, \<^verbatim>\<open>x || y\<close> and \<^verbatim>\<open>if (x)\<close>.\<close>

fun truthy :: "jsval \<Rightarrow> bool" where
  "truthy None = False"
| "truthy (Some JNull) = False"
| "truthy (Some (JBool b)) = b"
| "truthy (Some (JNum r)) = (to_double r \<noteq> Fin 0)"
| "truthy (Some (JStr s)) = (s \<noteq> [])"
| "truthy (Some (JArr xs)) = True"
| "truthy (Some (JObj kvs)) = True"

datatype jstype = TUndefined | TObject | TBoolean | TNumber | TString

fun typeof :: "jsval \<Rightarrow> jstype" where
  "typeof None = TUndefined"
| "typeof (Some JNull) = TObject"
| "typeof (Some (JBool b)) = TBoolean"
| "typeof (Some (JNum r)) = TNumber"
| "typeof (Some (JStr s)) = TString"
| "typeof (Some (JArr xs)) = TObject"
| "typeof (Some (JObj kvs)) = TObject"

subsection \<open>Strings\<close>

definition digit :: "nat \<Rightarrow> char" where
  "digit n = ''0123456789'' ! n"

fun show_nat :: "nat \<Rightarrow> string" where
  "show_nat n = (if n < 10 then [digit n] else show_nat (n div 10) @ [digit (n mod 10)])"

declare show_nat.simps [simp del]

definition show_int :: "int \<Rightarrow> string" where
  "show_int i = (if i < 0 then CHR ''-'' # show_nat (nat (- i)) else show_nat (nat i))"

fun starts_with :: "string \<Rightarrow> string \<Rightarrow> bool" where
  "starts_with s [] = True"
| "starts_with [] (c # cs) = False"
| "starts_with (d # ds) (c # cs) = (d = c \<and> starts_with ds cs)"

text \<open>\<^verbatim>\<open>s.includes(needle)\<close>: \<open>needle\<close> occurs in \<open>s\<close> as a contiguous run.\<close>

fun js_includes :: "string \<Rightarrow> string \<Rightarrow> bool" where
  "js_includes [] needle = (needle = [])"
| "js_includes (d # ds) needle = (starts_with (d # ds) needle \<or> js_includes ds needle)"

subsection \<open>Property reads\<close>

text \<open>
  \<open>get_prop v k\<close> is \<^verbatim>\<open>v[k]\<close> for a value other than \<^verbatim>\<open>null\<close>: an own property of an
  object, an element or the length of an array or a string. Members inherited from the
  built-in prototypes (functions such as \<^verbatim>\<open>constructor\<close>) are not JSON values and are
  read as absent; none of them is named type, data, meta, timestamp or expiration.
\<close>

definition index_of :: "string \<Rightarrow> nat \<Rightarrow> nat option" where
  "index_of k n = find (\<lambda>i. show_nat i = k) [0..<n]"

fun get_prop :: "json \<Rightarrow> string \<Rightarrow> jsval" where
  "get_prop (JObj kvs) k = map_of kvs k"
| "get_prop (JArr xs) k =
     (if k = ''length'' then Some (JNum (of_nat (length xs)))
      else (case index_of k (length xs) of Some i \<Rightarrow> Some (xs ! i) | None \<Rightarrow> None))"
| "get_prop (JStr s) k =
     (if k = ''length'' then Some (JNum (of_nat (length s)))
      else (case index_of k (length s) of Some i \<Rightarrow> Some (JStr [s ! i]) | None \<Rightarrow> None))"
| "get_prop JNull k = None"
| "get_prop (JBool b) k = None"
| "get_prop (JNum r) k = None"

text \<open>
  The messages of the TypeErrors that Node.js raises for a property read on
  \<^verbatim>\<open>null\<close>, for \<^verbatim>\<open>Object.keys(null)\<close>, and for a template literal holding an object
  that cannot be converted to a string.
\<close>

definition typeError_read_null :: "string \<Rightarrow> string" where
  "typeError_read_null k =
     ''Cannot read properties of null (reading '' @ [CHR 0x27] @ k @ [CHR 0x27] @ '')''"

definition typeError_keys_null :: string where
  "typeError_keys_null = ''Cannot convert undefined or null to object''"

definition typeError_to_primitive :: string where
  "typeError_to_primitive = ''Cannot convert object to primitive value''"

text \<open>\<^verbatim>\<open>v[k]\<close> for any parsed value: the read throws on \<^verbatim>\<open>null\<close>.\<close>

definition read_member :: "json \<Rightarrow> string \<Rightarrow> string + jsval" where
  "read_member v k = (if v = JNull then Inl (typeError_read_null k) else Inr (get_prop v k))"

text \<open>
  Conversion to a string inside a template literal throws for an object with an own
  \<^verbatim>\<open>toString\<close> property (a JSON value is never callable), and for an array one of
  whose elements does.
\<close>

fun to_string_throws :: "json \<Rightarrow> bool" where
  "to_string_throws (JObj kvs) = (map_of kvs ''toString'' \<noteq> None)"
| "to_string_throws (JArr xs) = list_ex to_string_throws xs"
| "to_string_throws JNull = False"
| "to_string_throws (JBool b) = False"
| "to_string_throws (JNum r) = False"
| "to_string_throws (JStr s) = False"

section \<open>The HTTP fetcher\<close>

text \<open>
  What the platform reports for one GET request: a complete response (status code, status
  message, body), a socket error with its message, or the request timeout. The endpoint is
  taken to be a well-formed URL.
\<close>

datatype net_event =
    Response nat string string
  | SocketError string
  | RequestTimeout

text \<open>
  \<^verbatim>\<open>makeHttpRequest\<close>: the promise resolves with the body (\<open>Inr\<close>) or rejects with an
  \<^verbatim>\<open>Error\<close> carrying the message (\<open>Inl\<close>). The two accented letters of the timeout
  message are written as their UTF-8 bytes.
\<close>

definition makeHttpRequest ::
  "string \<Rightarrow> (string \<times> string) list \<Rightarrow> int \<Rightarrow> net_event \<Rightarrow> string + string" where
  "makeHttpRequest url hdrs tmo ev =
     (case ev of
        Response statusCode statusMessage body \<Rightarrow>
          if 200 \<le> statusCode \<and> statusCode < 300 then Inr body
          else Inl (''HTTP '' @ show_nat statusCode @ '': '' @ statusMessage)
      | SocketError m \<Rightarrow> Inl (''Erro de rede: '' @ m)
      | RequestTimeout \<Rightarrow>
          Inl (''Timeout da requisi'' @ [CHR 0xC3, CHR 0xA7, CHR 0xC3, CHR 0xA3] @ ''o (''
               @ show_int tmo @ ''ms)''))"

section \<open>Arguments and configuration\<close>

text \<open>
  The options object. The fields that \<^verbatim>\<open>listenFrom\<close> tests with \<^verbatim>\<open>typeof\<close> hold any
  value; the others have the type their documentation gives, \<open>None\<close> when unset.
\<close>

record options =
  opt_type :: jsval
  opt_timeout :: jsval
  opt_retroBack :: jsval
  opt_interval :: "rat option"
  opt_debug :: bool
  opt_endpoint :: "string option"
  opt_headers :: "(string \<times> string) list option"
  opt_requestTimeout :: "int option"

record config =
  interval :: rat
  debug :: bool
  endpoint :: string
  headers :: "(string \<times> string) list"
  requestTimeout :: int
  ctype :: string
  timeout :: rat
  retroBack :: rat

text \<open>
  The errors thrown before polling starts, named after their messages:
  "Key deve ser uma string nao vazia", "options.type deve ser uma string nao vazia",
  "options.timeout deve ser um numero maior que 0",
  "options.retroBack deve ser um numero maior que 0", "Endpoint HTTP nao definido".
\<close>

datatype error =
    KeyNotNonEmptyString
  | TypeNotNonEmptyString
  | TimeoutNotNumberAboveZero
  | RetroBackNotNumberAboveZero
  | EndpointUndefined

datatype log_event =
    LogIntervalAdjusted
  | LogStart
  | LogAttempt nat
  | LogKeys
  | LogNotFound
  | LogInvalidStructure
  | LogTypeMismatch
  | LogExpired
  | LogRetroBack
  | LogFound
  | LogError string

text \<open>\<^verbatim>\<open>x || d\<close> for a number \<open>x\<close> that may be unset: zero is falsy.\<close>

definition number_or :: "rat option \<Rightarrow> rat \<Rightarrow> rat" where
  "number_or x d = (case x of None \<Rightarrow> d | Some v \<Rightarrow> if to_double v = Fin 0 then d else v)"

definition or_default :: "int option \<Rightarrow> int \<Rightarrow> int" where
  "or_default x d = (case x of None \<Rightarrow> d | Some v \<Rightarrow> if v = 0 then d else v)"

definition or_string :: "string option \<Rightarrow> string option \<Rightarrow> string option" where
  "or_string x d = (case x of None \<Rightarrow> d | Some s \<Rightarrow> if s = [] then d else Some s)"

text \<open>
  Lines 26 to 73 of \<^verbatim>\<open>listenFrom\<close>: the argument checks, the defaults and the floor of
  the interval. \<open>env\<close> is \<^verbatim>\<open>process.env.HTTP_PUB_SUB_ENDPOINT\<close>. The result is the
  validated key, the configuration and the lines logged so far.
\<close>

definition prepare ::
  "string option \<Rightarrow> jsval \<Rightarrow> options \<Rightarrow> error + (string \<times> config \<times> log_event list)" where
  "prepare env key opts =
     (case key of
        Some (JStr k) \<Rightarrow>
          if k = [] then Inl KeyNotNonEmptyString
          else (case opt_type opts of
            Some (JStr ty) \<Rightarrow>
              if ty = [] then Inl TypeNotNonEmptyString
              else if \<not> truthy (opt_timeout opts) \<or> typeof (opt_timeout opts) \<noteq> TNumber
                then Inl TimeoutNotNumberAboveZero
              else if \<not> truthy (opt_retroBack opts) \<or> typeof (opt_retroBack opts) \<noteq> TNumber
                then Inl RetroBackNotNumberAboveZero
              else (case (opt_timeout opts, opt_retroBack opts) of
                (Some (JNum tmo), Some (JNum rb)) \<Rightarrow>
                  (case or_string (opt_endpoint opts) env of
                     None \<Rightarrow> Inl EndpointUndefined
                   | Some ep \<Rightarrow>
                       if ep = [] then Inl EndpointUndefined
                       else
                         let i0 = number_or (opt_interval opts) 10;
                             low = dlt (to_double i0) (Fin 1);
                             dbg = opt_debug opts;
                             cfg = \<lparr> interval = (if low then 1 else i0),
                                     debug = dbg,
                                     endpoint = ep,
                                     headers = (case opt_headers opts of None \<Rightarrow> [] | Some h \<Rightarrow> h),
                                     requestTimeout = or_default (opt_requestTimeout opts) 5000,
                                     ctype = ty,
                                     timeout = tmo,
                                     retroBack = rb \<rparr>
                         in Inr (k, cfg,
                                 (if low \<and> dbg then [LogIntervalAdjusted] else [])
                                 @ (if dbg then [LogStart] else [])))
              | _ \<Rightarrow> Inl TimeoutNotNumberAboveZero)
          | _ \<Rightarrow> Inl TypeNotNonEmptyString)
      | _ \<Rightarrow> Inl KeyNotNonEmptyString)"

section \<open>The polling loop\<close>

text \<open>
  What \<^verbatim>\<open>resolve\<close> and \<^verbatim>\<open>reject\<close> are called with: the success object (data, meta,
  elapsedTime, attempts), the timeout object (elapsedTime, attempts), or an error made of
  "Erro ao processar resposta: " and the message.
\<close>

datatype outcome =
    Success json json rat nat
  | Timeout rat nat
  | Rejected string

text \<open>
  The state of one call: whether the interval timer is still set, the counter
  \<^verbatim>\<open>attempts\<close>, the calls of \<^verbatim>\<open>makeHttpRequest\<close> made so far (url, headers, request
  timeout), the calls of \<^verbatim>\<open>resolve\<close> and \<^verbatim>\<open>reject\<close> in order, and the lines logged.
\<close>

record state =
  timer :: bool
  attempts :: nat
  requests :: "(string \<times> (string \<times> string) list \<times> int) list"
  resolutions :: "outcome list"
  console :: "log_event list"

text \<open>
  A promise is settled by the first call of \<^verbatim>\<open>resolve\<close> or \<^verbatim>\<open>reject\<close>; later
  calls have no effect. This is what the caller of \<^verbatim>\<open>listenFrom\<close> receives.
\<close>

definition outcome_of :: "state \<Rightarrow> outcome option" where
  "outcome_of st = (case resolutions st of [] \<Rightarrow> None | x # xs \<Rightarrow> Some x)"

text \<open>
  One moment at which the platform may run the timer, with what a callback started then
  observes: \<^verbatim>\<open>Date.now()\<close> at its first line, the platform's answer to its request, and
  \<^verbatim>\<open>Date.now()\<close> where the message is checked and where the final elapsed time is taken
  (read only if those lines are reached). \<open>due c d\<close> tells whether a timer created with a
  delay of \<open>d\<close> milliseconds fires at this moment. \<open>arrivals c\<close> lists, in order, the
  requests whose responses arrive after this moment and before the next, each by its
  position among the requests then in flight: a request may stay in flight over any
  number of later firings. Clock readings are whole milliseconds below \<open>2 ^ 53\<close>.
\<close>

record cycle =
  t_tick :: int
  net :: net_event
  t_now :: int
  t_final :: int
  arrivals :: "nat list"
  due :: "double \<Rightarrow> bool"

text \<open>
  \<^verbatim>\<open>Math.round(ms / 1000 * 10) / 10\<close>: each quotient and product is rounded to a double;
  \<^verbatim>\<open>Math.round x\<close> is the floor of \<open>x + 1/2\<close>.
\<close>

definition round1 :: "int \<Rightarrow> rat" where
  "round1 ms = rnd (of_int \<lfloor>rnd (rnd (of_int ms / 1000) * 10) + 1 / 2\<rfloor> / 10)"

text \<open>\<^verbatim>\<open>Math.floor(Date.now() / 1000)\<close>.\<close>

definition unix_seconds :: "int \<Rightarrow> int" where
  "unix_seconds ms = \<lfloor>rnd (of_int ms / 1000)\<rfloor>"

text \<open>Line 67 and the test of line 80: \<^verbatim>\<open>elapsed >= timeoutMs\<close>.\<close>

definition timeoutMs :: "config \<Rightarrow> double" where
  "timeoutMs cfg = dmul (to_double (timeout cfg)) (Fin 1000)"

definition budget_reached :: "config \<Rightarrow> int \<Rightarrow> bool" where
  "budget_reached cfg elapsed = dle (timeoutMs cfg) (Fin (of_int elapsed))"

definition log_if :: "bool \<Rightarrow> log_event \<Rightarrow> state \<Rightarrow> state" where
  "log_if b e st = (if b then st\<lparr>console := console st @ [e]\<rparr> else st)"

text \<open>\<^verbatim>\<open>message.meta[k]\<close>, read only after \<^verbatim>\<open>message.meta\<close> was found truthy.\<close>

definition meta_prop :: "json \<Rightarrow> string \<Rightarrow> jsval" where
  "meta_prop message k =
     (case get_prop message ''meta'' of None \<Rightarrow> None | Some m \<Rightarrow> get_prop m k)"

text \<open>
  Lines 113 to 169: the checks on the message found under the key. The result is the
  message of the error thrown, if any, and the state. A value whose \<^verbatim>\<open>typeof\<close> is
  number is one of the form \<open>Some (JNum r)\<close>. The sum of line 135 and the difference of
  line 146 are rounded to doubles.
\<close>

definition check_message ::
  "config \<Rightarrow> int \<Rightarrow> cycle \<Rightarrow> json \<Rightarrow> state \<Rightarrow> string option \<times> state" where
  "check_message cfg startTime c message st =
     (if \<not> truthy (get_prop message ''type'') \<or> \<not> truthy (get_prop message ''data'')
         \<or> \<not> truthy (get_prop message ''meta'')
         \<or> typeof (meta_prop message ''timestamp'') \<noteq> TNumber
         \<or> typeof (meta_prop message ''expiration'') \<noteq> TNumber
      then (None, log_if (debug cfg) LogInvalidStructure st)
      else (case (get_prop message ''type'', get_prop message ''data'', get_prop message ''meta'',
                  meta_prop message ''timestamp'', meta_prop message ''expiration'') of
        (Some ty, Some dat, Some meta, Some (JNum timestamp), Some (JNum expiration)) \<Rightarrow>
          if ty \<noteq> JStr (ctype cfg) then
            (if debug cfg \<and> to_string_throws ty then (Some typeError_to_primitive, st)
             else (None, log_if (debug cfg) LogTypeMismatch st))
          else
            let now = Fin (of_int (unix_seconds (t_now c)));
                messageTime = to_double timestamp;
                expirationTime = dadd messageTime (to_double expiration)
            in if dlt expirationTime now then (None, log_if (debug cfg) LogExpired st)
               else
                 let retroBackLimit = dsub now (to_double (retroBack cfg))
                 in if dlt messageTime retroBackLimit
                    then (None, log_if (debug cfg) LogRetroBack st)
                    else
                      let finalElapsed = round1 (t_final c - startTime);
                          st' = log_if (debug cfg) LogFound (st\<lparr>timer := False\<rparr>)
                      in (None, st'\<lparr>resolutions := resolutions st'
                                      @ [Success dat meta finalElapsed (attempts st')]\<rparr>)
      | _ \<Rightarrow> (None, log_if (debug cfg) LogInvalidStructure st)))"

text \<open>
  Lines 94 to 98, up to the \<^verbatim>\<open>await\<close>: the request is made. The callback is suspended
  here until the response arrives.
\<close>

definition start_request :: "config \<Rightarrow> state \<Rightarrow> state" where
  "start_request cfg st0 =
     (let st1 = log_if (debug cfg) (LogAttempt (attempts st0)) st0
      in st1\<lparr>requests := requests st1 @ [(endpoint cfg, headers cfg, requestTimeout cfg)]\<rparr>)"

text \<open>
  Lines 98 to 169, the rest of the body of \<^verbatim>\<open>try\<close> once the request has been answered.
  \<open>parse\<close> is \<^verbatim>\<open>JSON.parse\<close>: the parsed value, or the message of the SyntaxError.
\<close>

definition try_rest ::
  "(string \<Rightarrow> string + json) \<Rightarrow> config \<Rightarrow> string \<Rightarrow> int \<Rightarrow> cycle \<Rightarrow> state
     \<Rightarrow> string option \<times> state" where
  "try_rest parse cfg key startTime c st2 =
     (case makeHttpRequest (endpoint cfg) (headers cfg) (requestTimeout cfg) (net c) of
        Inl msg \<Rightarrow> (Some msg, st2)
      | Inr response \<Rightarrow>
          (case parse response of
             Inl msg \<Rightarrow> (Some msg, st2)
           | Inr messages \<Rightarrow>
               if debug cfg \<and> messages = JNull then (Some typeError_keys_null, st2)
               else
                 let st3 = log_if (debug cfg) LogKeys st2
                 in (case read_member messages key of
                       Inl msg \<Rightarrow> (Some msg, st3)
                     | Inr m \<Rightarrow>
                         if \<not> truthy m then (None, log_if (debug cfg) LogNotFound st3)
                         else (case m of
                                 Some message \<Rightarrow> check_message cfg startTime c message st3
                               | None \<Rightarrow> (None, log_if (debug cfg) LogNotFound st3)))))"

text \<open>Lines 94 to 169, the whole body of \<^verbatim>\<open>try\<close>.\<close>

definition try_block ::
  "(string \<Rightarrow> string + json) \<Rightarrow> config \<Rightarrow> string \<Rightarrow> int \<Rightarrow> cycle \<Rightarrow> state
     \<Rightarrow> string option \<times> state" where
  "try_block parse cfg key startTime c st0 =
     try_rest parse cfg key startTime c (start_request cfg st0)"

text \<open>Lines 171 to 184, the \<^verbatim>\<open>catch\<close> clause.\<close>

definition catch_block :: "config \<Rightarrow> string \<Rightarrow> state \<Rightarrow> state" where
  "catch_block cfg msg st =
     (let st1 = log_if (debug cfg) (LogError msg) st
      in if js_includes msg ''JSON'' \<or> js_includes msg ''parse''
         then st1\<lparr>timer := False, resolutions := resolutions st1 @ [Rejected msg]\<rparr>
         else st1)"

text \<open>
  Lines 76 to 185, the function given to \<^verbatim>\<open>setInterval\<close>, when the response to its
  request arrives before anything else runs.
\<close>

definition callback ::
  "(string \<Rightarrow> string + json) \<Rightarrow> config \<Rightarrow> string \<Rightarrow> int \<Rightarrow> cycle \<Rightarrow> state \<Rightarrow> state" where
  "callback parse cfg key startTime c st =
     (let elapsed = t_tick c - startTime
      in if budget_reached cfg elapsed
         then st\<lparr>timer := False,
                 resolutions := resolutions st @ [Timeout (round1 elapsed) (attempts st)]\<rparr>
         else
           (case try_block parse cfg key startTime c (st\<lparr>attempts := attempts st + 1\<rparr>) of
              (None, st') \<Rightarrow> st'
            | (Some msg, st') \<Rightarrow> catch_block cfg msg st'))"

subsection \<open>The timer and the requests in flight\<close>

text \<open>
  The same function in its two parts. \<open>fire\<close> is the part before the \<^verbatim>\<open>await\<close>: the
  budget check, the increment of the counter and the request, which joins the requests in
  flight. \<open>resume\<close> is the part after it, run when the response arrives; it reads the
  counter and the timer as they are then.
\<close>

definition fire ::
  "config \<Rightarrow> int \<Rightarrow> cycle \<Rightarrow> state \<times> cycle list \<Rightarrow> state \<times> cycle list" where
  "fire cfg startTime c sp =
     (let st = fst sp; elapsed = t_tick c - startTime
      in if budget_reached cfg elapsed
         then (st\<lparr>timer := False,
                  resolutions := resolutions st @ [Timeout (round1 elapsed) (attempts st)]\<rparr>,
               snd sp)
         else (start_request cfg (st\<lparr>attempts := attempts st + 1\<rparr>), snd sp @ [c]))"

definition resume ::
  "(string \<Rightarrow> string + json) \<Rightarrow> config \<Rightarrow> string \<Rightarrow> int \<Rightarrow> cycle \<Rightarrow> state \<Rightarrow> state" where
  "resume parse cfg key startTime c st =
     (case try_rest parse cfg key startTime c st of
        (None, st') \<Rightarrow> st'
      | (Some msg, st') \<Rightarrow> catch_block cfg msg st')"

text \<open>The response to the request at position \<open>i\<close> among those in flight arrives.\<close>

definition arrive ::
  "(string \<Rightarrow> string + json) \<Rightarrow> config \<Rightarrow> string \<Rightarrow> int \<Rightarrow> nat
     \<Rightarrow> state \<times> cycle list \<Rightarrow> state \<times> cycle list" where
  "arrive parse cfg key startTime i sp =
     (if i < length (snd sp)
      then (resume parse cfg key startTime (snd sp ! i) (fst sp), take i (snd sp) @ drop (Suc i) (snd sp))
      else sp)"

text \<open>
  Line 185: the timer is created with \<^verbatim>\<open>config.interval * 1000\<close>. Node.js replaces a
  delay that is not between 1 and \<open>2 ^ 31 - 1\<close> milliseconds by 1 millisecond.
\<close>

definition setInterval_delay :: "double \<Rightarrow> double" where
  "setInterval_delay after =
     (if dle (Fin 1) after \<and> dle after (Fin 2147483647) then after else Fin 1)"

definition timer_delay :: "config \<Rightarrow> double" where
  "timer_delay cfg = setInterval_delay (dmul (to_double (interval cfg)) (Fin 1000))"

text \<open>
  The timer: at each moment at which it is due it calls the function, for as long as it
  is set; \<^verbatim>\<open>clearInterval\<close> ends that. Responses arrive whether or not it is set.
\<close>

fun loop ::
  "(string \<Rightarrow> string + json) \<Rightarrow> config \<Rightarrow> string \<Rightarrow> int \<Rightarrow> cycle list
     \<Rightarrow> state \<times> cycle list \<Rightarrow> state \<times> cycle list" where
  "loop parse cfg key startTime [] sp = sp"
| "loop parse cfg key startTime (c # cs) sp =
     loop parse cfg key startTime cs
       (fold (arrive parse cfg key startTime) (arrivals c)
          (if timer (fst sp) \<and> due c (timer_delay cfg) then fire cfg startTime c sp else sp))"

definition run ::
  "(string \<Rightarrow> string + json) \<Rightarrow> config \<Rightarrow> string \<Rightarrow> int \<Rightarrow> cycle list \<Rightarrow> state \<Rightarrow> state" where
  "run parse cfg key startTime cs st = fst (loop parse cfg key startTime cs (st, []))"

text \<open>
  The surroundings of a call: the environment variable, \<^verbatim>\<open>JSON.parse\<close>,
  \<^verbatim>\<open>Date.now()\<close> at line 66, and the moments that follow.
\<close>

record world =
  env_endpoint :: "string option"
  JSON_parse :: "string \<Rightarrow> string + json"
  start_time :: int
  cycles :: "cycle list"

definition initial :: "log_event list \<Rightarrow> state" where
  "initial logs = \<lparr> timer = True, attempts = 0, requests = [], resolutions = [], console = logs \<rparr>"

definition listenFrom :: "world \<Rightarrow> jsval \<Rightarrow> options \<Rightarrow> error + state" where
  "listenFrom w key opts =
     (case prepare (env_endpoint w) key opts of
        Inl e \<Rightarrow> Inl e
      | Inr (k, cfg, logs) \<Rightarrow>
          Inr (run (JSON_parse w) cfg k (start_time w) (cycles w) (initial logs)))"

section \<open>Notions used in the statements\<close>

definition is_timeout :: "outcome \<Rightarrow> bool" where
  "is_timeout x = (case x of Timeout e a \<Rightarrow> True | Success d m e a \<Rightarrow> False | Rejected msg \<Rightarrow> False)"

text \<open>The timer is set exactly as long as neither \<^verbatim>\<open>resolve\<close> nor \<^verbatim>\<open>reject\<close> was called.\<close>

definition timer_until_settled :: "state \<Rightarrow> bool" where
  "timer_until_settled st = (timer st = (resolutions st = []))"

text \<open>What a caller can observe of a state: everything but the console.\<close>

definition observable :: "state \<Rightarrow> bool \<times> nat \<times> (string \<times> (string \<times> string) list \<times> int) list \<times> outcome list" where
  "observable st = (timer st, attempts st, requests st, resolutions st)"

text \<open>What every step of the loop keeps, from a state to a later one.\<close>

definition step_ok :: "state \<Rightarrow> state \<Rightarrow> bool" where
  "step_ok st st' =
     ((\<exists>ys. resolutions st' = resolutions st @ ys)
      \<and> (timer_until_settled st \<longrightarrow> timer_until_settled st')
      \<and> (attempts st = length (requests st) \<longrightarrow> attempts st' = length (requests st'))
      \<and> (\<not> timer st \<longrightarrow> \<not> timer st' \<and> attempts st' = attempts st \<and> requests st' = requests st
            \<and> (\<forall>x \<in> set (resolutions st'). is_timeout x \<longrightarrow> x \<in> set (resolutions st))))"

text \<open>
  The invariant of the specification for an acceptable message, in exact arithmetic:
  the type is the requested one, \<open>now \<le> timestamp + expiration\<close> and
  \<open>timestamp \<ge> now - retroBack\<close>.
\<close>

definition acceptable_spec :: "string \<Rightarrow> rat \<Rightarrow> int \<Rightarrow> json \<Rightarrow> rat \<Rightarrow> rat \<Rightarrow> bool" where
  "acceptable_spec reqType retro now ty ts ex =
     (ty = JStr reqType \<and> of_int now \<le> ts + ex \<and> ts \<ge> of_int now - retro)"

section \<open>Example inputs\<close>

text \<open>
  A request for type "t" with a budget of 120 seconds and a window of 60 seconds, the
  configuration it yields, a message emitted at second 940 that expires 60 seconds later,
  and a moment at which every timer is due, whose callback checks the message at second
  1000 and whose response arrives before the next moment.
\<close>

definition ex_options :: options where
  "ex_options = \<lparr> opt_type = Some (JStr ''t''), opt_timeout = Some (JNum 120),
                   opt_retroBack = Some (JNum 60), opt_interval = None, opt_debug = False,
                   opt_endpoint = Some ''http://host/messages'', opt_headers = None,
                   opt_requestTimeout = None \<rparr>"

definition ex_config :: config where
  "ex_config = \<lparr> interval = 10, debug = False, endpoint = ''http://host/messages'',
                  headers = [], requestTimeout = 5000, ctype = ''t'', timeout = 120,
                  retroBack = 60 \<rparr>"

definition ex_meta :: json where
  "ex_meta = JObj [(''timestamp'', JNum 940), (''expiration'', JNum 60)]"

definition ex_message :: "json \<Rightarrow> json" where
  "ex_message dat = JObj [(''type'', JStr ''t''), (''data'', dat), (''meta'', ex_meta)]"

definition ex_cycle :: "int \<Rightarrow> net_event \<Rightarrow> cycle" where
  "ex_cycle t ev = \<lparr> t_tick = t, net = ev, t_now = 1000999, t_final = t + 40,
                      arrivals = [0], due = (\<lambda>d. True) \<rparr>"

definition ex_world :: "json \<Rightarrow> cycle list \<Rightarrow> world" where
  "ex_world parsed cs = \<lparr> env_endpoint = None, JSON_parse = (\<lambda>body. Inr parsed),
                          start_time = 0, cycles = cs \<rparr>"

text \<open>
  Meta data of a message emitted at half a second that expires after the largest double
  below one half.
\<close>

definition ex_meta_half :: json where
  "ex_meta_half = JObj [(''timestamp'', JNum (1 / 2)), (''expiration'', JNum (1 / 2 - 1 / 2 ^ 54))]"

section \<open>Rounding of whole numbers\<close>

lemma bits_upper: "n < 2 ^ bits n"
proof (induction n rule: bits.induct)
  case (1 n)
  show ?case
  proof (cases "n = 0")
    case True
    then show ?thesis by (simp add: bits.simps)
  next
    case False
    with 1 have "n div 2 < 2 ^ bits (n div 2)" by simp
    then have "n < 2 * 2 ^ bits (n div 2)" by linarith
    with False show ?thesis by (simp add: bits.simps [of n])
  qed
qed

lemma bits_le: "n < 2 ^ k \<Longrightarrow> bits n \<le> k"
proof (induction n arbitrary: k rule: bits.induct)
  case (1 n)
  show ?case
  proof (cases "n = 0")
    case True
    then show ?thesis by (simp add: bits.simps)
  next
    case False
    with "1.prems" obtain j where k: "k = Suc j" by (cases k) auto
    with "1.prems" have "n div 2 < 2 ^ j" by auto
    with 1 False have "bits (n div 2) \<le> j" by simp
    with False k show ?thesis by (simp add: bits.simps [of n])
  qed
qed

lemma bits_pos: "0 < n \<Longrightarrow> 0 < bits n"
  by (simp add: bits.simps [of n])

lemma round_even_of_int [simp]: "round_even (of_int k) = k"
  by (simp add: round_even_def)

lemma rnd_of_int:
  assumes "\<bar>n\<bar> < 2 ^ 53"
  shows "rnd (of_int n) = of_int n"
proof (cases "n = 0")
  case True
  then show ?thesis by (simp add: rnd_def)
next
  case False
  let ?a = "nat \<bar>n\<bar>"
  have a: "0 < ?a" "?a < 2 ^ 53" using False assms by auto
  have b: "bits ?a \<le> 53" "0 < bits ?a" using a by (auto intro: bits_le bits_pos)
  have "1 \<le> \<bar>n\<bar>" using False by linarith
  then have ge1: "(1::rat) \<le> \<bar>of_int n\<bar>"
    using of_int_le_iff [of 1 "\<bar>n\<bar>", where 'a = rat] by simp
  have e: "exponent \<bar>of_int n\<bar> = int (bits ?a) - 1"
    using ge1 by (simp add: exponent_def flip: of_int_abs)
  define d where "d = 53 - bits ?a"
  have q: "pow2 (max (exponent \<bar>of_int n\<bar> - 52) (- 1074)) = 1 / 2 ^ d"
  proof -
    have "nat (53 - int (bits ?a)) = d" using b unfolding d_def by linarith
    then show ?thesis using b by (auto simp: e pow2_def max_def d_def)
  qed
  have "of_int n / (1 / 2 ^ d) = (of_int (n * 2 ^ d) :: rat)" by simp
  then have "round_even (of_int n / (1 / 2 ^ d)) = n * 2 ^ d"
    by (simp only: round_even_of_int)
  then show ?thesis using False by (simp add: rnd_def q Let_def)
qed

lemma to_double_of_int:
  assumes "\<bar>n\<bar> < 2 ^ 53"
  shows "to_double (of_int n) = Fin (of_int n)"
proof (cases "n = 0")
  case True
  then show ?thesis by (simp add: to_double_def rnd_def)
next
  case False
  let ?a = "nat \<bar>n\<bar>"
  have a: "0 < ?a" "?a < 2 ^ 53" using False assms by auto
  have b: "bits ?a \<le> 53" using a by (auto intro: bits_le)
  have "1 \<le> \<bar>n\<bar>" using False by linarith
  then have ge1: "(1::rat) \<le> \<bar>of_int n\<bar>"
    using of_int_le_iff [of 1 "\<bar>n\<bar>", where 'a = rat] by simp
  have e: "exponent \<bar>of_int n\<bar> = int (bits ?a) - 1"
    using ge1 by (simp add: exponent_def flip: of_int_abs)
  show ?thesis using False b by (simp add: to_double_def rnd_of_int [OF assms] e Let_def)
qed

lemma to_double_numeral [simp]:
  "numeral k < (2 ^ 53 :: int) \<Longrightarrow> to_double (numeral k) = Fin (numeral k)"
  "numeral k < (2 ^ 53 :: int) \<Longrightarrow> to_double (- numeral k) = Fin (- numeral k)"
  "to_double 0 = Fin 0" "to_double 1 = Fin 1"
  using to_double_of_int [of "numeral k"] to_double_of_int [of "- numeral k"]
    to_double_of_int [of 0] to_double_of_int [of 1]
  by simp_all

section \<open>Effects of the parts of a cycle\<close>

lemma log_if_fields [simp]:
  "timer (log_if b e st) = timer st"
  "attempts (log_if b e st) = attempts st"
  "requests (log_if b e st) = requests st"
  "resolutions (log_if b e st) = resolutions st"
  by (simp_all add: log_if_def)

lemma start_request_fields [simp]:
  "timer (start_request cfg st) = timer st"
  "attempts (start_request cfg st) = attempts st"
  "requests (start_request cfg st) = requests st @ [(endpoint cfg, headers cfg, requestTimeout cfg)]"
  "resolutions (start_request cfg st) = resolutions st"
  by (simp_all add: start_request_def Let_def)

lemma check_message_effect:
  assumes "check_message cfg startTime c message st = (ex, st')"
  shows "attempts st' = attempts st \<and> requests st' = requests st \<and>
         ((resolutions st' = resolutions st \<and> timer st' = timer st
            \<and> (ex = None \<or> ex = Some typeError_to_primitive))
          \<or> (ex = None \<and> \<not> timer st' \<and>
              (\<exists>d m e. resolutions st' = resolutions st @ [Success d m e (attempts st)])))"
  using assms
  by (auto simp: check_message_def Let_def split: if_splits option.splits json.splits prod.splits)

lemma try_rest_effect:
  assumes "try_rest parse cfg key startTime c st = (ex, st')"
  shows "attempts st' = attempts st \<and> requests st' = requests st \<and>
         ((resolutions st' = resolutions st \<and> timer st' = timer st)
          \<or> (ex = None \<and> \<not> timer st' \<and>
              (\<exists>d m e. resolutions st' = resolutions st @ [Success d m e (attempts st)])))"
  using assms
  by (auto simp: try_rest_def Let_def split: if_splits option.splits sum.splits dest!: check_message_effect)

lemma catch_block_effect:
  "attempts (catch_block cfg msg st) = attempts st \<and>
   requests (catch_block cfg msg st) = requests st \<and>
   (if js_includes msg ''JSON'' \<or> js_includes msg ''parse''
    then \<not> timer (catch_block cfg msg st) \<and>
         resolutions (catch_block cfg msg st) = resolutions st @ [Rejected msg]
    else timer (catch_block cfg msg st) = timer st \<and>
         resolutions (catch_block cfg msg st) = resolutions st)"
  by (simp add: catch_block_def Let_def)

lemma resume_effect:
  "attempts (resume parse cfg key startTime c st) = attempts st \<and>
   requests (resume parse cfg key startTime c st) = requests st \<and>
   ((resolutions (resume parse cfg key startTime c st) = resolutions st
       \<and> timer (resume parse cfg key startTime c st) = timer st)
    \<or> (\<not> timer (resume parse cfg key startTime c st) \<and>
        (\<exists>x. resolutions (resume parse cfg key startTime c st) = resolutions st @ [x]
             \<and> \<not> is_timeout x)))"
proof -
  obtain ex st' where tb: "try_rest parse cfg key startTime c st = (ex, st')"
    by (cases "try_rest parse cfg key startTime c st")
  note eff = try_rest_effect [OF tb]
  show ?thesis
  proof (cases ex)
    case None
    then have "resume parse cfg key startTime c st = st'"
      using tb by (simp add: resume_def)
    then show ?thesis using eff by (auto simp: is_timeout_def)
  next
    case (Some msg)
    then have r: "resume parse cfg key startTime c st = catch_block cfg msg st'"
      using tb by (simp add: resume_def)
    from Some eff have same: "resolutions st' = resolutions st" "timer st' = timer st"
      "attempts st' = attempts st" "requests st' = requests st"
      by auto
    show ?thesis
      using catch_block_effect [of cfg msg st'] same
      by (auto simp: r is_timeout_def split: if_splits)
  qed
qed

lemma callback_resume:
  "callback parse cfg key startTime c st =
     (if budget_reached cfg (t_tick c - startTime)
      then st\<lparr>timer := False,
              resolutions := resolutions st @ [Timeout (round1 (t_tick c - startTime)) (attempts st)]\<rparr>
      else resume parse cfg key startTime c (start_request cfg (st\<lparr>attempts := attempts st + 1\<rparr>)))"
  by (simp add: callback_def resume_def try_block_def Let_def)

lemma callback_timed_out:
  assumes "budget_reached cfg (t_tick c - startTime)"
  shows "callback parse cfg key startTime c st =
           st\<lparr>timer := False,
              resolutions := resolutions st @ [Timeout (round1 (t_tick c - startTime)) (attempts st)]\<rparr>"
  using assms by (simp add: callback_resume)

lemma callback_fetching:
  assumes "\<not> budget_reached cfg (t_tick c - startTime)"
  shows "attempts (callback parse cfg key startTime c st) = Suc (attempts st) \<and>
         requests (callback parse cfg key startTime c st)
           = requests st @ [(endpoint cfg, headers cfg, requestTimeout cfg)] \<and>
         ((resolutions (callback parse cfg key startTime c st) = resolutions st
             \<and> timer (callback parse cfg key startTime c st) = timer st)
          \<or> (\<not> timer (callback parse cfg key startTime c st) \<and>
              (\<exists>x. resolutions (callback parse cfg key startTime c st) = resolutions st @ [x]
                   \<and> \<not> is_timeout x)))"
  using assms
    resume_effect [of parse cfg key startTime c "start_request cfg (st\<lparr>attempts := attempts st + 1\<rparr>)"]
  by (simp add: callback_resume)

text \<open>A firing whose response arrives at once is one run of the whole function.\<close>

lemma fire_arrive_callback:
  "fst (arrive parse cfg key startTime 0 (fire cfg startTime c (st, []))) = callback parse cfg key startTime c st"
  by (simp add: arrive_def fire_def callback_resume Let_def)

lemma fire_arrive_pending:
  "snd (arrive parse cfg key startTime 0 (fire cfg startTime c (st, []))) = []"
  by (simp add: arrive_def fire_def Let_def)

lemma step_ok_refl: "step_ok st st"
  by (simp add: step_ok_def)

lemma step_ok_trans: "step_ok a b \<Longrightarrow> step_ok b c \<Longrightarrow> step_ok a c"
  by (auto simp: step_ok_def)

lemma resume_step_ok: "step_ok st (resume parse cfg key startTime c st)"
  using resume_effect [of parse cfg key startTime c st]
  by (auto simp: step_ok_def timer_until_settled_def)

lemma arrive_step_ok: "step_ok (fst sp) (fst (arrive parse cfg key startTime i sp))"
  by (simp add: arrive_def resume_step_ok step_ok_refl)

lemma fold_arrive_step_ok:
  "step_ok (fst sp) (fst (fold (arrive parse cfg key startTime) is sp))"
proof (induction "is" arbitrary: sp)
  case Nil
  then show ?case by (simp add: step_ok_refl)
next
  case (Cons i "is")
  show ?case
    using step_ok_trans [OF arrive_step_ok Cons.IH] by simp
qed

lemma fire_step_ok:
  assumes "timer (fst sp)"
  shows "step_ok (fst sp) (fst (fire cfg startTime c sp))"
  using assms by (auto simp: fire_def step_ok_def timer_until_settled_def Let_def)

lemma loop_step_ok: "step_ok (fst sp) (fst (loop parse cfg key startTime cs sp))"
proof (induction cs arbitrary: sp)
  case Nil
  then show ?case by (simp add: step_ok_refl)
next
  case (Cons c cs)
  let ?f = "if timer (fst sp) \<and> due c (timer_delay cfg) then fire cfg startTime c sp else sp"
  have 1: "step_ok (fst sp) (fst ?f)" by (simp add: fire_step_ok step_ok_refl)
  have 2: "step_ok (fst ?f) (fst (fold (arrive parse cfg key startTime) (arrivals c) ?f))"
    by (rule fold_arrive_step_ok)
  have 3: "step_ok (fst (fold (arrive parse cfg key startTime) (arrivals c) ?f))
             (fst (loop parse cfg key startTime cs (fold (arrive parse cfg key startTime) (arrivals c) ?f)))"
    by (rule Cons.IH)
  show ?case using step_ok_trans [OF step_ok_trans [OF 1 2] 3] by simp
qed

lemma loop_append:
  "loop parse cfg key startTime (cs @ rest) sp
     = loop parse cfg key startTime rest (loop parse cfg key startTime cs sp)"
  by (induction cs arbitrary: sp) simp_all

lemma loop_reaches_budget:
  assumes "c \<in> set cs" "due c (timer_delay cfg)" "budget_reached cfg (t_tick c - startTime)"
  shows "\<not> timer (fst (loop parse cfg key startTime cs sp))"
  using assms(1)
proof (induction cs arbitrary: sp)
  case Nil
  then show ?case by simp
next
  case (Cons d ds)
  let ?f = "if timer (fst sp) \<and> due d (timer_delay cfg) then fire cfg startTime d sp else sp"
  let ?g = "fold (arrive parse cfg key startTime) (arrivals d) ?f"
  show ?case
  proof (cases "d = c")
    case True
    have "\<not> timer (fst ?f)" using True assms(2,3) by (simp add: fire_def Let_def)
    then have "\<not> timer (fst ?g)" using fold_arrive_step_ok [of ?f parse cfg key startTime "arrivals d"]
      by (simp add: step_ok_def)
    then show ?thesis using loop_step_ok [of ?g parse cfg key startTime ds]
      by (simp add: step_ok_def)
  next
    case False
    with Cons show ?thesis by simp
  qed
qed

lemma resume_no_timeout:
  "x \<in> set (resolutions (resume parse cfg key startTime c st)) \<Longrightarrow> is_timeout x
     \<Longrightarrow> x \<in> set (resolutions st)"
  using resume_effect [of parse cfg key startTime c st] by auto

lemma fold_arrive_no_timeout:
  "x \<in> set (resolutions (fst (fold (arrive parse cfg key startTime) is sp))) \<Longrightarrow> is_timeout x
     \<Longrightarrow> x \<in> set (resolutions (fst sp))"
proof (induction "is" arbitrary: sp)
  case Nil
  then show ?case by simp
next
  case (Cons i "is")
  from Cons.IH [of "arrive parse cfg key startTime i sp"] Cons.prems
  have "x \<in> set (resolutions (fst (arrive parse cfg key startTime i sp)))" by simp
  then show ?case using Cons.prems(2)
    by (auto simp: arrive_def dest: resume_no_timeout split: if_splits)
qed

lemma loop_timeout_origin:
  assumes "Timeout e a \<in> set (resolutions (fst (loop parse cfg key startTime cs sp)))"
    and "attempts (fst sp) = length (requests (fst sp))"
  shows "Timeout e a \<in> set (resolutions (fst sp))
       \<or> (\<exists>c \<in> set cs. budget_reached cfg (t_tick c - startTime)
            \<and> e = round1 (t_tick c - startTime)
            \<and> a = length (requests (fst (loop parse cfg key startTime cs sp))))"
  using assms
proof (induction cs arbitrary: sp)
  case Nil
  then show ?case by simp
next
  case (Cons c cs)
  let ?f = "if timer (fst sp) \<and> due c (timer_delay cfg) then fire cfg startTime c sp else sp"
  let ?g = "fold (arrive parse cfg key startTime) (arrivals c) ?f"
  let ?l = "loop parse cfg key startTime cs ?g"
  have fg: "step_ok (fst ?f) (fst ?g)" by (rule fold_arrive_step_ok)
  have gl: "step_ok (fst ?g) (fst ?l)" by (rule loop_step_ok)
  have sf: "step_ok (fst sp) (fst ?f)" by (simp add: fire_step_ok step_ok_refl)
  have cnt_g: "attempts (fst ?g) = length (requests (fst ?g))"
    using sf fg Cons.prems(2) by (simp add: step_ok_def)
  have inl: "Timeout e a \<in> set (resolutions (fst ?l))"
    using Cons.prems(1) by simp
  from Cons.IH [OF inl cnt_g]
  consider (later) "\<exists>c \<in> set cs. budget_reached cfg (t_tick c - startTime)
            \<and> e = round1 (t_tick c - startTime) \<and> a = length (requests (fst ?l))"
    | (now) "Timeout e a \<in> set (resolutions (fst ?g))"
    by blast
  then show ?case
  proof cases
    case later
    then show ?thesis by auto
  next
    case now
    then have inf: "Timeout e a \<in> set (resolutions (fst ?f))"
      by (rule fold_arrive_no_timeout) (simp add: is_timeout_def)
    show ?thesis
    proof (cases "Timeout e a \<in> set (resolutions (fst sp))")
      case True
      then show ?thesis by simp
    next
      case False
      with inf have fired: "timer (fst sp)" "due c (timer_delay cfg)"
        by (auto split: if_splits)
      with inf False have reached: "budget_reached cfg (t_tick c - startTime)"
        "e = round1 (t_tick c - startTime)" "a = attempts (fst sp)"
        "\<not> timer (fst ?f)" "requests (fst ?f) = requests (fst sp)"
        by (auto simp: fire_def Let_def split: if_splits)
      have "requests (fst ?l) = requests (fst sp)"
        using reached(4,5) fg gl by (simp add: step_ok_def)
      then show ?thesis using reached Cons.prems(2) by auto
    qed
  qed
qed

lemma prepare_Inr:
  assumes "prepare env key opts = Inr (k, cfg, logs)"
  shows "key = Some (JStr k) \<and> k \<noteq> [] \<and> opt_type opts = Some (JStr (ctype cfg)) \<and> ctype cfg \<noteq> []
       \<and> opt_timeout opts = Some (JNum (timeout cfg)) \<and> to_double (timeout cfg) \<noteq> Fin 0
       \<and> opt_retroBack opts = Some (JNum (retroBack cfg)) \<and> to_double (retroBack cfg) \<noteq> Fin 0
       \<and> endpoint cfg \<noteq> [] \<and> debug cfg = opt_debug opts
       \<and> interval cfg = (if dlt (to_double (number_or (opt_interval opts) 10)) (Fin 1) then 1
                          else number_or (opt_interval opts) 10)"
  using assms
  by (auto simp: prepare_def Let_def split: option.splits json.splits if_splits)

lemma initial_counts: "attempts (initial logs) = length (requests (initial logs))"
  by (simp add: initial_def)

lemma initial_settled: "timer_until_settled (initial logs)"
  by (simp add: initial_def timer_until_settled_def)

lemma listenFrom_Inr:
  assumes "listenFrom w key opts = Inr S"
  obtains k cfg logs where "prepare (env_endpoint w) key opts = Inr (k, cfg, logs)"
    and "S = run (JSON_parse w) cfg k (start_time w) (cycles w) (initial logs)"
  using assms by (auto simp: listenFrom_def split: sum.splits)

lemma outcome_of_append:
  "outcome_of st \<noteq> None \<Longrightarrow> resolutions st' = resolutions st @ ys \<Longrightarrow> outcome_of st' = outcome_of st"
  by (cases "resolutions st") (simp_all add: outcome_of_def)


lemma timeoutMs_whole_seconds:
  assumes "\<bar>n\<bar> * 1000 < 2 ^ 53"
  shows "dmul (to_double (of_int n)) (Fin 1000) = Fin (of_int n * 1000)"
proof -
  have 1: "\<bar>n\<bar> < 2 ^ 53" using assms by linarith
  have 2: "\<bar>n * 1000\<bar> < 2 ^ 53" using assms by (simp add: abs_mult)
  show ?thesis
    using to_double_of_int [OF 1] to_double_of_int [OF 2] by simp
qed

lemma dadd_whole:
  assumes "\<bar>a\<bar> < 2 ^ 52" "\<bar>b\<bar> < 2 ^ 52"
  shows "dadd (to_double (of_int a)) (to_double (of_int b)) = Fin (of_int (a + b))"
proof -
  have p: "(2::int) ^ 53 = 2 * 2 ^ 52" by simp
  have "\<bar>a\<bar> < 2 ^ 53" "\<bar>b\<bar> < 2 ^ 53" "\<bar>a + b\<bar> < 2 ^ 53"
    using assms unfolding p by linarith+
  then show ?thesis
    using to_double_of_int [of a] to_double_of_int [of b] to_double_of_int [of "a + b"] by simp
qed

lemma dsub_whole:
  assumes "\<bar>a\<bar> < 2 ^ 52" "\<bar>b\<bar> < 2 ^ 52"
  shows "dsub (Fin (of_int a)) (to_double (of_int b)) = Fin (of_int (a - b))"
proof -
  have p: "(2::int) ^ 53 = 2 * 2 ^ 52" by simp
  have "\<bar>b\<bar> < 2 ^ 53" "\<bar>a - b\<bar> < 2 ^ 53"
    using assms unfolding p by linarith+
  then show ?thesis
    using to_double_of_int [of b] to_double_of_int [of "a - b"] by (simp add: dsub_def)
qed

lemma network_error_swallowed:
  assumes "makeHttpRequest (endpoint cfg) (headers cfg) (requestTimeout cfg) (net c) = Inl msg"
    and "\<not> js_includes msg ''JSON''" "\<not> js_includes msg ''parse''"
  shows "resolutions (resume parse cfg key startTime c st) = resolutions st
       \<and> timer (resume parse cfg key startTime c st) = timer st
       \<and> attempts (resume parse cfg key startTime c st) = attempts st"
  using assms by (simp add: resume_def try_rest_def catch_block_def Let_def)

lemma debug_only_traces:
  assumes "\<And>body. parse body \<noteq> Inr JNull" and "observable st = observable st'"
  shows "observable (resume parse (cfg\<lparr>debug := True\<rparr>) key startTime c st)
       = observable (resume parse (cfg\<lparr>debug := False\<rparr>) key startTime c st')"
proof -
  have noinc: "\<not> js_includes typeError_to_primitive ''JSON''"
    "\<not> js_includes typeError_to_primitive ''parse''"
    by (simp_all add: typeError_to_primitive_def)
  show ?thesis
    using assms noinc
    by (auto simp: resume_def try_rest_def check_message_def catch_block_def meta_prop_def
        read_member_def observable_def log_if_def Let_def
        split: option.splits json.splits sum.splits)
qed

lemma debug_only_traces_loop:
  assumes nonnull: "\<And>body. parse body \<noteq> Inr JNull"
    and "observable (fst sp) = observable (fst sp')" "snd sp = snd sp'"
  shows "observable (fst (loop parse (cfg\<lparr>debug := True\<rparr>) key startTime cs sp))
           = observable (fst (loop parse (cfg\<lparr>debug := False\<rparr>) key startTime cs sp'))
       \<and> snd (loop parse (cfg\<lparr>debug := True\<rparr>) key startTime cs sp)
           = snd (loop parse (cfg\<lparr>debug := False\<rparr>) key startTime cs sp')"
  using assms(2,3)
proof (induction cs arbitrary: sp sp')
  case Nil
  then show ?case by simp
next
  case (Cons c cs)
  let ?T = "cfg\<lparr>debug := True\<rparr>" and ?F = "cfg\<lparr>debug := False\<rparr>"
  let ?f = "if timer (fst sp) \<and> due c (timer_delay ?T) then fire ?T startTime c sp else sp"
  let ?f' = "if timer (fst sp') \<and> due c (timer_delay ?F) then fire ?F startTime c sp' else sp'"
  have f: "observable (fst ?f) = observable (fst ?f') \<and> snd ?f = snd ?f'"
    using Cons.prems
    by (auto simp: fire_def observable_def timer_delay_def budget_reached_def timeoutMs_def
        start_request_def log_if_def Let_def)
  have g: "observable (fst (fold (arrive parse ?T key startTime) is a))
             = observable (fst (fold (arrive parse ?F key startTime) is a'))
           \<and> snd (fold (arrive parse ?T key startTime) is a)
             = snd (fold (arrive parse ?F key startTime) is a')"
    if "observable (fst a) = observable (fst a')" "snd a = snd a'" for "is" a a'
    using that
  proof (induction "is" arbitrary: a a')
    case Nil
    then show ?case by simp
  next
    case (Cons i "is")
    have "observable (fst (arrive parse ?T key startTime i a))
            = observable (fst (arrive parse ?F key startTime i a'))
          \<and> snd (arrive parse ?T key startTime i a) = snd (arrive parse ?F key startTime i a')"
      using Cons.prems debug_only_traces [OF nonnull, where st = "fst a" and st' = "fst a'" and cfg = cfg
          and key = key and startTime = startTime]
      by (simp add: arrive_def)
    then show ?case using Cons.IH by simp
  qed
  from g [of ?f ?f' "arrivals c"] f
  show ?case using Cons.IH by simp
qed

section \<open>The example inputs evaluated\<close>

lemma ex_numbers:
  "unix_seconds 1000999 = 1000"
  "unix_seconds 1000 = 1"
  "round1 5040 = 5"
  "round1 60040 = 60"
  "round1 120000 = 120"
  by code_simp+

lemma half_doubles:
  "to_double (1 / 2) = Fin (1 / 2)"
  "to_double (9007199254740991 / 18014398509481984) = Fin (9007199254740991 / 18014398509481984)"
  "to_double (18014398509481983 / 18014398509481984) = Fin 1"
  by code_simp+

lemmas ex_defs =
  ex_options_def ex_config_def ex_meta_def ex_message_def ex_cycle_def ex_world_def

lemmas cb_defs =
  callback_def try_block_def try_rest_def start_request_def check_message_def meta_prop_def
  catch_block_def resume_def fire_def arrive_def run_def
  budget_reached_def timeoutMs_def dle_def dsub_def
  makeHttpRequest_def read_member_def log_if_def initial_def Let_def ex_numbers

lemmas run_defs = listenFrom_def prepare_def or_string_def or_default_def number_or_def ex_defs cb_defs

lemma ex_timeout_run:
  "listenFrom (ex_world (JObj []) [ex_cycle 60000 (Response 200 ''OK'' ''{}''),
                                   ex_cycle 120000 (Response 200 ''OK'' ''{}'')])
       (Some (JStr ''k1'')) ex_options
     = Inr \<lparr> timer = False, attempts = 1, requests = [(''http://host/messages'', [], 5000)],
             resolutions = [Timeout 120 1], console = [] \<rparr>"
  by (simp add: run_defs)

lemma ex_overlap_run:
  "listenFrom (ex_world (JObj [(''k1'', ex_message (JStr ''X''))])
       [(ex_cycle 60000 (Response 200 ''OK'' ''body''))\<lparr>arrivals := []\<rparr>,
        ex_cycle 120000 (Response 200 ''OK'' ''body'')])
       (Some (JStr ''k1'')) ex_options
     = Inr \<lparr> timer = False, attempts = 1, requests = [(''http://host/messages'', [], 5000)],
             resolutions = [Timeout 120 1, Success (JStr ''X'') ex_meta 60 1], console = [] \<rparr>"
  by (simp add: run_defs)

section \<open>Message acceptance\<close>

text \<open>
  Claim C1, as it stands, fails in two ways. The sum of line 135 is a double: a message
  emitted at 0.5 with an expiration just below 0.5 is expired at second 1 in exact
  arithmetic, yet the sum rounds to 1 and the message is delivered. And when a request
  outlasts the budget, the timeout settles the promise first: the acceptable message that
  arrives afterwards is passed to \<^verbatim>\<open>resolve\<close>, but the outcome of the call stays the
  timeout.
\<close>

theorem success_iff_acceptable_fails:
  "\<not> acceptable_spec ''t'' 60 1 (JStr ''t'') (1 / 2) (1 / 2 - 1 / 2 ^ 54)
   \<and> resolutions (callback
        (\<lambda>body. Inr (JObj [(''k1'', JObj [(''type'', JStr ''t''), (''data'', JStr ''X''),
                                            (''meta'', ex_meta_half)])]))
        ex_config ''k1'' 0 ((ex_cycle 5000 (Response 200 ''OK'' ''body''))\<lparr>t_now := 1000\<rparr>)
        (initial []))
       = [Success (JStr ''X'') ex_meta_half 5 1]
   \<and> acceptable_spec ''t'' 60 1000 (JStr ''t'') 940 60
   \<and> outcome_of (case_sum (\<lambda>e. initial []) id
        (listenFrom (ex_world (JObj [(''k1'', ex_message (JStr ''X''))])
           [(ex_cycle 60000 (Response 200 ''OK'' ''body''))\<lparr>arrivals := []\<rparr>,
            ex_cycle 120000 (Response 200 ''OK'' ''body'')])
           (Some (JStr ''k1'')) ex_options))
       = Some (Timeout 120 1)"
proof (intro conjI)
  show "\<not> acceptable_spec ''t'' 60 1 (JStr ''t'') (1 / 2) (1 / 2 - 1 / 2 ^ 54)"
    by (simp add: acceptable_spec_def)
  show "resolutions (callback
        (\<lambda>body. Inr (JObj [(''k1'', JObj [(''type'', JStr ''t''), (''data'', JStr ''X''),
                                            (''meta'', ex_meta_half)])]))
        ex_config ''k1'' 0 ((ex_cycle 5000 (Response 200 ''OK'' ''body''))\<lparr>t_now := 1000\<rparr>)
        (initial []))
       = [Success (JStr ''X'') ex_meta_half 5 1]"
    by (simp add: ex_meta_half_def half_doubles ex_defs cb_defs)
  show "acceptable_spec ''t'' 60 1000 (JStr ''t'') 940 60"
    by (simp add: acceptable_spec_def)
  show "outcome_of (case_sum (\<lambda>e. initial []) id
        (listenFrom (ex_world (JObj [(''k1'', ex_message (JStr ''X''))])
           [(ex_cycle 60000 (Response 200 ''OK'' ''body''))\<lparr>arrivals := []\<rparr>,
            ex_cycle 120000 (Response 200 ''OK'' ''body'')])
           (Some (JStr ''k1'')) ex_options))
       = Some (Timeout 120 1)"
    by (simp add: ex_overlap_run outcome_of_def)
qed

text \<open>
  Claim C1, amended. When the response to a request arrives and holds, under the key, a
  message that passes the structural checks (type, data and meta truthy, both meta fields
  numbers), \<^verbatim>\<open>resolve\<close> is called with the success object exactly when the type equals
  the requested type, now is not greater than timestamp + expiration, and timestamp is not
  less than now - retroBack, the sum and the difference being the doubles the program
  computes; this is the outcome of the call when nothing settled the promise before.
  Otherwise nothing is resolved and the timer stays as it was. For whole timestamps,
  expirations and windows below \<open>2 ^ 52\<close> the test is the invariant of the specification
  in exact arithmetic, with both bounds inclusive.
\<close>

theorem success_iff_acceptable:
  assumes fetched: "makeHttpRequest (endpoint cfg) (headers cfg) (requestTimeout cfg) (net c) = Inr body"
    and parsed: "parse body = Inr messages"
    and found: "read_member messages key = Inr (Some message)" "truthy (Some message)"
    and valid: "get_prop message ''type'' = Some ty" "truthy (Some ty)"
               "get_prop message ''data'' = Some dat" "truthy (Some dat)"
               "get_prop message ''meta'' = Some meta" "truthy (Some meta)"
               "get_prop meta ''timestamp'' = Some (JNum ts)"
               "get_prop meta ''expiration'' = Some (JNum ex)"
  shows "(if ty = JStr (ctype cfg)
            \<and> \<not> dlt (dadd (to_double ts) (to_double ex)) (Fin (of_int (unix_seconds (t_now c))))
            \<and> \<not> dlt (to_double ts)
                     (dsub (Fin (of_int (unix_seconds (t_now c)))) (to_double (retroBack cfg)))
          then resolutions (resume parse cfg key startTime c st)
                 = resolutions st @ [Success dat meta (round1 (t_final c - startTime)) (attempts st)]
               \<and> \<not> timer (resume parse cfg key startTime c st)
               \<and> (resolutions st = [] \<longrightarrow> outcome_of (resume parse cfg key startTime c st)
                     = Some (Success dat meta (round1 (t_final c - startTime)) (attempts st)))
          else resolutions (resume parse cfg key startTime c st) = resolutions st
               \<and> timer (resume parse cfg key startTime c st) = timer st)
       \<and> (\<forall>a b r. ts = of_int a \<and> ex = of_int b \<and> retroBack cfg = of_int r
             \<and> \<bar>a\<bar> < 2 ^ 52 \<and> \<bar>b\<bar> < 2 ^ 52 \<and> \<bar>r\<bar> < 2 ^ 52 \<and> \<bar>unix_seconds (t_now c)\<bar> < 2 ^ 52
             \<longrightarrow> ((ty = JStr (ctype cfg)
                    \<and> \<not> dlt (dadd (to_double ts) (to_double ex)) (Fin (of_int (unix_seconds (t_now c))))
                    \<and> \<not> dlt (to_double ts)
                         (dsub (Fin (of_int (unix_seconds (t_now c)))) (to_double (retroBack cfg))))
                  \<longleftrightarrow> acceptable_spec (ctype cfg) (retroBack cfg) (unix_seconds (t_now c)) ty ts ex))"
proof -
  have notnull: "messages \<noteq> JNull" using found(1) by (auto simp: read_member_def split: if_splits)
  have noinc: "\<not> js_includes typeError_to_primitive ''JSON''" "\<not> js_includes typeError_to_primitive ''parse''"
    by (simp_all add: typeError_to_primitive_def)
  have first: "(if ty = JStr (ctype cfg)
            \<and> \<not> dlt (dadd (to_double ts) (to_double ex)) (Fin (of_int (unix_seconds (t_now c))))
            \<and> \<not> dlt (to_double ts)
                     (dsub (Fin (of_int (unix_seconds (t_now c)))) (to_double (retroBack cfg)))
          then resolutions (resume parse cfg key startTime c st)
                 = resolutions st @ [Success dat meta (round1 (t_final c - startTime)) (attempts st)]
               \<and> \<not> timer (resume parse cfg key startTime c st)
               \<and> (resolutions st = [] \<longrightarrow> outcome_of (resume parse cfg key startTime c st)
                     = Some (Success dat meta (round1 (t_final c - startTime)) (attempts st)))
          else resolutions (resume parse cfg key startTime c st) = resolutions st
               \<and> timer (resume parse cfg key startTime c st) = timer st)"
    using assms notnull noinc
    by (auto simp: resume_def try_rest_def check_message_def meta_prop_def catch_block_def
        outcome_of_def Let_def)
  have second: "(ty = JStr (ctype cfg)
                    \<and> \<not> dlt (dadd (to_double ts) (to_double ex)) (Fin (of_int (unix_seconds (t_now c))))
                    \<and> \<not> dlt (to_double ts)
                         (dsub (Fin (of_int (unix_seconds (t_now c)))) (to_double (retroBack cfg))))
                  \<longleftrightarrow> acceptable_spec (ctype cfg) (retroBack cfg) (unix_seconds (t_now c)) ty ts ex"
    if "ts = of_int a" "ex = of_int b" "retroBack cfg = of_int r"
       "\<bar>a\<bar> < 2 ^ 52" "\<bar>b\<bar> < 2 ^ 52" "\<bar>r\<bar> < 2 ^ 52" "\<bar>unix_seconds (t_now c)\<bar> < 2 ^ 52" for a b r
  proof -
    have ta: "to_double (of_int a) = Fin (of_int a)"
      using that(4) by (intro to_double_of_int) simp
    have A: "dadd (to_double ts) (to_double ex) = Fin (of_int (a + b))"
      unfolding that(1,2) by (rule dadd_whole [OF that(4,5)])
    have B: "dsub (Fin (of_int (unix_seconds (t_now c)))) (to_double (retroBack cfg))
               = Fin (of_int (unix_seconds (t_now c) - r))"
      unfolding that(3) by (rule dsub_whole [OF that(7,6)])
    have le: "(of_int (unix_seconds (t_now c)) :: rat) \<le> of_int a + of_int b
                \<longleftrightarrow> unix_seconds (t_now c) \<le> a + b"
      by (simp flip: of_int_add)
    have ge: "(of_int (unix_seconds (t_now c)) :: rat) - of_int r \<le> of_int a
                \<longleftrightarrow> unix_seconds (t_now c) - r \<le> a"
      by (simp flip: of_int_diff)
    show ?thesis
      by (simp only: A B, simp add: that(1,2,3) ta acceptable_spec_def le ge not_less)
  qed
  show ?thesis using first second by blast
qed

theorem success_iff_acceptable_witness:
  "resolutions (resume (\<lambda>body. Inr (JObj [(''k1'', ex_message (JStr ''X''))])) ex_config ''k1'' 0
      (ex_cycle 5000 (Response 200 ''OK'' ''body'')) (initial []))
     = [Success (JStr ''X'') ex_meta 5 0]
   \<and> acceptable_spec ''t'' 60 1000 (JStr ''t'') 940 60
   \<and> (1000 :: rat) = 940 + 60 \<and> (940 :: rat) = 1000 - 60"
  using success_iff_acceptable [of ex_config "ex_cycle 5000 (Response 200 ''OK'' ''body'')" "''body''"
      "\<lambda>body. Inr (JObj [(''k1'', ex_message (JStr ''X''))])" "JObj [(''k1'', ex_message (JStr ''X''))]"
      "''k1''" "ex_message (JStr ''X'')" "JStr ''t''" "JStr ''X''" ex_meta 940 60 0 "initial []"]
  by (simp add: ex_defs makeHttpRequest_def read_member_def initial_def ex_numbers dsub_def
      acceptable_spec_def)

section \<open>Termination of a call\<close>

text \<open>
  Claim C2. For a call that passes the argument checks: the timer is set exactly as long
  as the promise is not settled; once settled, the outcome never changes, whatever
  happens later (a request still in flight may call \<^verbatim>\<open>resolve\<close> again, without
  effect); once the timer is cleared it stays cleared and no further attempt or request
  is made; and if the timer fires at a moment at which the budget has elapsed, the
  promise is settled. (A call that fails the argument checks raises its error and never
  polls.)
\<close>

theorem exactly_one_resolution:
  assumes "listenFrom w key opts = Inr S"
    and "listenFrom (w\<lparr>cycles := cycles w @ rest\<rparr>) key opts = Inr S'"
  shows "(timer S \<longleftrightarrow> outcome_of S = None)
       \<and> (outcome_of S \<noteq> None \<longrightarrow> outcome_of S' = outcome_of S)
       \<and> (\<not> timer S \<longrightarrow> \<not> timer S' \<and> attempts S' = attempts S \<and> requests S' = requests S)
       \<and> (\<forall>k cfg logs. prepare (env_endpoint w) key opts = Inr (k, cfg, logs)
             \<longrightarrow> (\<exists>c \<in> set (cycles w). due c (timer_delay cfg)
                     \<and> budget_reached cfg (t_tick c - start_time w))
             \<longrightarrow> outcome_of S \<noteq> None \<and> \<not> timer S)"
proof -
  from assms(1) obtain k cfg logs where
    p: "prepare (env_endpoint w) key opts = Inr (k, cfg, logs)"
    and S: "S = run (JSON_parse w) cfg k (start_time w) (cycles w) (initial logs)"
    by (rule listenFrom_Inr)
  let ?sp = "loop (JSON_parse w) cfg k (start_time w) (cycles w) (initial logs, [])"
  have S1: "S = fst ?sp" by (simp add: S run_def)
  have S': "S' = fst (loop (JSON_parse w) cfg k (start_time w) rest ?sp)"
    using assms(2) p by (simp add: listenFrom_def run_def loop_append)
  have ok: "step_ok (initial logs) S"
    using loop_step_ok [of "(initial logs, [])" "JSON_parse w" cfg k "start_time w" "cycles w"]
    by (simp add: S1)
  have inv: "timer_until_settled S" using ok initial_settled by (simp add: step_ok_def)
  have a: "timer S \<longleftrightarrow> outcome_of S = None"
    using inv by (cases "resolutions S") (simp_all add: timer_until_settled_def outcome_of_def)
  have ok': "step_ok S S'"
    unfolding S1 S' by (rule loop_step_ok)
  have b: "outcome_of S' = outcome_of S" if "outcome_of S \<noteq> None"
    using ok' that by (auto simp: step_ok_def intro: outcome_of_append)
  have c: "\<not> timer S' \<and> attempts S' = attempts S \<and> requests S' = requests S" if "\<not> timer S"
    using ok' that by (simp add: step_ok_def)
  have d: "outcome_of S \<noteq> None \<and> \<not> timer S"
    if "prepare (env_endpoint w) key opts = Inr (k', cfg', logs')"
       "c \<in> set (cycles w)" "due c (timer_delay cfg')"
       "budget_reached cfg' (t_tick c - start_time w)" for k' cfg' logs' c
  proof -
    have "cfg' = cfg" using that(1) p by simp
    then have "\<not> timer S"
      unfolding S1 using that by (intro loop_reaches_budget [of c]) simp_all
    then show ?thesis using a by simp
  qed
  show ?thesis using a b c d by blast
qed

theorem exactly_one_resolution_witness:
  "timer_until_settled \<lparr> timer = False, attempts = 1, requests = [(''http://host/messages'', [], 5000)],
             resolutions = [Timeout 120 1, Success (JStr ''X'') ex_meta 60 1], console = [] \<rparr>
   \<and> listenFrom (ex_world (JObj [(''k1'', ex_message (JStr ''X''))])
       [(ex_cycle 60000 (Response 200 ''OK'' ''body''))\<lparr>arrivals := []\<rparr>,
        ex_cycle 120000 (Response 200 ''OK'' ''body''),
        ex_cycle 180000 (Response 200 ''OK'' ''body'')])
       (Some (JStr ''k1'')) ex_options
     = Inr \<lparr> timer = False, attempts = 1, requests = [(''http://host/messages'', [], 5000)],
             resolutions = [Timeout 120 1, Success (JStr ''X'') ex_meta 60 1], console = [] \<rparr>"
proof -
  let ?w = "ex_world (JObj [(''k1'', ex_message (JStr ''X''))])
       [(ex_cycle 60000 (Response 200 ''OK'' ''body''))\<lparr>arrivals := []\<rparr>,
        ex_cycle 120000 (Response 200 ''OK'' ''body'')]"
  let ?S = "\<lparr> timer = False, attempts = 1, requests = [(''http://host/messages'', [], 5000)],
             resolutions = [Timeout 120 1, Success (JStr ''X'') ex_meta 60 1], console = [] \<rparr>"
  have h': "listenFrom (?w\<lparr>cycles := cycles ?w @ [ex_cycle 180000 (Response 200 ''OK'' ''body'')]\<rparr>)
              (Some (JStr ''k1'')) ex_options = Inr ?S"
    by (simp add: run_defs)
  from exactly_one_resolution [OF ex_overlap_run h']
  show ?thesis using h' by (simp add: ex_world_def timer_until_settled_def outcome_of_def)
qed

section \<open>Errors during polling\<close>



text \<open>
  Claim C4, at the failing input. A socket error whose message happens to contain "parse"
  (here a failed lookup of the host api.parse.com) is taken for a parse error by the catch
  clause: the call is rejected with the network error instead of retrying.
\<close>

theorem network_error_surfaced:
  "listenFrom (ex_world (JObj []) [ex_cycle 10000 (SocketError ''getaddrinfo ENOTFOUND api.parse.com'')])
       (Some (JStr ''k1'')) ex_options
     = Inr \<lparr> timer = False, attempts = 1, requests = [(''http://host/messages'', [], 5000)],
             resolutions = [Rejected ''Erro de rede: getaddrinfo ENOTFOUND api.parse.com''],
             console = [] \<rparr>"
  by (simp add: run_defs)

theorem network_error_surfaced_witness:
  "\<exists>S m. listenFrom (ex_world (JObj []) [ex_cycle 10000 (SocketError ''getaddrinfo ENOTFOUND api.parse.com'')])
            (Some (JStr ''k1'')) ex_options = Inr S
         \<and> \<not> timer S \<and> resolutions S = [Rejected m] \<and> js_includes m ''parse''"
  using network_error_surfaced by simp

section \<open>Argument checks\<close>

text \<open>
  Claim C5, at the failing input. Negative numbers pass both checks: no error is raised
  for a timeout of -5 and a retroBack of -60, and a call with a retroBack of -60 goes on
  to fetch.
\<close>

theorem negative_budget_accepted:
  "prepare None (Some (JStr ''k1''))
       (ex_options\<lparr>opt_timeout := Some (JNum (- 5)), opt_retroBack := Some (JNum (- 60))\<rparr>)
     = Inr (''k1'', ex_config\<lparr>timeout := - 5, retroBack := - 60\<rparr>, [])
   \<and> listenFrom (ex_world (JObj []) [ex_cycle 10000 (Response 200 ''OK'' ''{}'')])
       (Some (JStr ''k1'')) (ex_options\<lparr>opt_retroBack := Some (JNum (- 60))\<rparr>)
     = Inr \<lparr> timer = True, attempts = 1, requests = [(''http://host/messages'', [], 5000)],
             resolutions = [], console = [] \<rparr>"
  by (simp add: run_defs)

theorem negative_budget_accepted_witness:
  "\<exists>cfg logs. prepare None (Some (JStr ''k1''))
       (ex_options\<lparr>opt_timeout := Some (JNum (- 5)), opt_retroBack := Some (JNum (- 60))\<rparr>)
        = Inr (''k1'', cfg, logs) \<and> timeout cfg < 0 \<and> retroBack cfg < 0"
  using negative_budget_accepted by (simp add: ex_config_def)

text \<open>
  Claim C7, as it stands, fails at both ends. An interval of 0 is falsy, so the default
  of 10 seconds replaces it before the floor is applied, and the timer is created with
  10000 milliseconds. An interval of 2147484 seconds is kept, but the delay of the timer
  exceeds \<open>2 ^ 31 - 1\<close> milliseconds and Node.js replaces it by 1 millisecond.
\<close>

theorem interval_zero_takes_default:
  "prepare None (Some (JStr ''k1'')) (ex_options\<lparr>opt_interval := Some 0\<rparr>)
     = Inr (''k1'', ex_config\<lparr>interval := 10\<rparr>, [])
   \<and> timer_delay (ex_config\<lparr>interval := 10\<rparr>) = Fin 10000
   \<and> prepare None (Some (JStr ''k1'')) (ex_options\<lparr>opt_interval := Some 2147484\<rparr>)
     = Inr (''k1'', ex_config\<lparr>interval := 2147484\<rparr>, [])
   \<and> timer_delay (ex_config\<lparr>interval := 2147484\<rparr>) = Fin 1"
  by (simp add: prepare_def or_string_def or_default_def number_or_def ex_defs
      timer_delay_def setInterval_delay_def dle_def)

text \<open>
  Claim C7, amended. A supplied interval raises no error of its own. Where the call goes
  on to poll: an interval that reads as zero takes the default of 10 seconds; any other
  interval below 1 becomes exactly 1, and the timer is created with 1000 milliseconds;
  an interval of at least 1 is kept, and the timer is created with the interval times
  1000 milliseconds if that is at most \<open>2 ^ 31 - 1\<close>, and with 1 millisecond otherwise.
\<close>

theorem interval_floor:
  "case prepare env key (opts\<lparr>opt_interval := Some r\<rparr>) of
     Inl e \<Rightarrow> prepare env key opts = Inl e
   | Inr (k, cfg, logs) \<Rightarrow>
       (if to_double r = Fin 0 then interval cfg = 10 \<and> timer_delay cfg = Fin 10000
        else if dlt (to_double r) (Fin 1) then interval cfg = 1 \<and> timer_delay cfg = Fin 1000
        else interval cfg = r
             \<and> timer_delay cfg =
                 (if dle (Fin 1) (dmul (to_double r) (Fin 1000))
                     \<and> dle (dmul (to_double r) (Fin 1000)) (Fin 2147483647)
                  then dmul (to_double r) (Fin 1000) else Fin 1))"
  by (auto simp: prepare_def number_or_def timer_delay_def setInterval_delay_def dle_def Let_def
      split: option.splits json.splits sum.splits)

theorem interval_floor_witness:
  "prepare None (Some (JStr ''k1'')) (ex_options\<lparr>opt_interval := Some (1 / 2)\<rparr>)
     = Inr (''k1'', ex_config\<lparr>interval := 1\<rparr>, [])
   \<and> timer_delay (ex_config\<lparr>interval := 1\<rparr>) = Fin 1000
   \<and> prepare None (Some (JStr ''k1'')) (ex_options\<lparr>opt_interval := Some 3\<rparr>)
     = Inr (''k1'', ex_config\<lparr>interval := 3\<rparr>, [])
   \<and> timer_delay (ex_config\<lparr>interval := 3\<rparr>) = Fin 3000"
  using interval_floor [of None "Some (JStr ''k1'')" ex_options "1 / 2"]
    interval_floor [of None "Some (JStr ''k1'')" ex_options 3]
  by (simp add: prepare_def or_string_def or_default_def number_or_def ex_defs half_doubles
      timer_delay_def setInterval_delay_def dle_def)

section \<open>The attempts counter and the budget\<close>

text \<open>
  Claim C6. A cycle whose budget check (elapsed >= timeoutMs) resolves the timeout leaves
  the counter and the list of requests as they were and reports the counter as it
  stands; every other cycle adds one to the counter and makes one request. Hence at the
  end of a call the counter is the number of requests made, and a timeout outcome reports
  that number.
\<close>

theorem attempts_count_fetches:
  "(if budget_reached cfg (t_tick c - startTime)
    then attempts (callback parse cfg key startTime c st) = attempts st
       \<and> requests (callback parse cfg key startTime c st) = requests st
       \<and> resolutions (callback parse cfg key startTime c st)
            = resolutions st @ [Timeout (round1 (t_tick c - startTime)) (attempts st)]
    else attempts (callback parse cfg key startTime c st) = Suc (attempts st)
       \<and> requests (callback parse cfg key startTime c st)
            = requests st @ [(endpoint cfg, headers cfg, requestTimeout cfg)])
   \<and> (listenFrom w k opts = Inr S \<longrightarrow>
        attempts S = length (requests S)
        \<and> (\<forall>e a. Timeout e a \<in> set (resolutions S) \<longrightarrow> a = length (requests S)))"
proof -
  have whole: "attempts S = length (requests S)
        \<and> (\<forall>e a. Timeout e a \<in> set (resolutions S) \<longrightarrow> a = length (requests S))"
    if "listenFrom w k opts = Inr S"
  proof -
    from that obtain k' cfg' logs where
      S: "S = run (JSON_parse w) cfg' k' (start_time w) (cycles w) (initial logs)"
      by (rule listenFrom_Inr)
    have S1: "S = fst (loop (JSON_parse w) cfg' k' (start_time w) (cycles w) (initial logs, []))"
      by (simp add: S run_def)
    have "step_ok (initial logs) S"
      using loop_step_ok [of "(initial logs, [])" "JSON_parse w" cfg' k' "start_time w" "cycles w"]
      by (simp add: S1)
    then have "attempts S = length (requests S)"
      using initial_counts by (simp add: step_ok_def)
    moreover have "a = length (requests S)" if "Timeout e a \<in> set (resolutions S)" for e a
      using loop_timeout_origin [of e a "JSON_parse w" cfg' k' "start_time w" "cycles w" "(initial logs, [])"]
        that
      by (auto simp: S1 initial_def)
    ultimately show ?thesis by blast
  qed
  show ?thesis
    using whole callback_fetching [where c = c and startTime = startTime and cfg = cfg and parse = parse and key = key and st = st]
    by (simp add: callback_timed_out)
qed

theorem attempts_count_fetches_witness:
  "attempts (callback (\<lambda>body. Inr (JObj [])) ex_config ''k1'' 0
              (ex_cycle 120000 (Response 200 ''OK'' ''{}'')) (initial [])) = 0
   \<and> attempts (callback (\<lambda>body. Inr (JObj [])) ex_config ''k1'' 0
              (ex_cycle 60000 (Response 200 ''OK'' ''{}'')) (initial [])) = 1
   \<and> length (requests \<lparr> timer = False, attempts = 1,
                         requests = [(''http://host/messages'', [], 5000)],
                         resolutions = [Timeout 120 1], console = [] \<rparr>) = 1"
  using attempts_count_fetches [where c = "ex_cycle 120000 (Response 200 ''OK'' ''{}'')"
      and startTime = 0 and cfg = ex_config and parse = "\<lambda>body. Inr (JObj [])" and key = "''k1''"
      and st = "initial []"
      and w = "ex_world (JObj []) [ex_cycle 60000 (Response 200 ''OK'' ''{}''),
                                   ex_cycle 120000 (Response 200 ''OK'' ''{}'')]"
      and k = "Some (JStr ''k1'')" and opts = ex_options
      and S = "\<lparr> timer = False, attempts = 1, requests = [(''http://host/messages'', [], 5000)],
                 resolutions = [Timeout 120 1], console = [] \<rparr>"]
    attempts_count_fetches [where c = "ex_cycle 60000 (Response 200 ''OK'' ''{}'')"
      and startTime = 0 and cfg = ex_config and parse = "\<lambda>body. Inr (JObj [])" and key = "''k1''"
      and st = "initial []"]
    ex_timeout_run
  by (simp add: ex_defs initial_def budget_reached_def timeoutMs_def dle_def)

text \<open>
  Claim C10. A timeout outcome comes only from a firing whose clock reading, taken at the
  budget check, is at least timeoutMs after the start, timeoutMs being the product
  timeout * 1000 as the program computes it; for a budget of whole seconds that is the
  exact product. The elapsed time reported is that reading, rounded to a tenth of a
  second.
\<close>

theorem timeout_only_after_budget:
  assumes "listenFrom w key opts = Inr S" and "Timeout e a \<in> set (resolutions S)"
  shows "\<exists>tmo. opt_timeout opts = Some (JNum tmo)
           \<and> (\<exists>c \<in> set (cycles w).
                  dle (dmul (to_double tmo) (Fin 1000)) (Fin (of_int (t_tick c - start_time w)))
                  \<and> (\<forall>n. tmo = of_int n \<and> \<bar>n\<bar> * 1000 < 2 ^ 53
                        \<longrightarrow> of_int (t_tick c - start_time w) \<ge> tmo * 1000)
                  \<and> e = round1 (t_tick c - start_time w))"
proof -
  from assms(1) obtain k cfg logs where
    p: "prepare (env_endpoint w) key opts = Inr (k, cfg, logs)"
    and S: "S = run (JSON_parse w) cfg k (start_time w) (cycles w) (initial logs)"
    by (rule listenFrom_Inr)
  have t: "opt_timeout opts = Some (JNum (timeout cfg))" using prepare_Inr [OF p] by simp
  from loop_timeout_origin [of e a "JSON_parse w" cfg k "start_time w" "cycles w" "(initial logs, [])"]
    assms(2)
  obtain c where c: "c \<in> set (cycles w)" "budget_reached cfg (t_tick c - start_time w)"
      "e = round1 (t_tick c - start_time w)"
    by (auto simp: S run_def initial_def)
  have d: "dle (dmul (to_double (timeout cfg)) (Fin 1000)) (Fin (of_int (t_tick c - start_time w)))"
    using c(2) by (simp add: budget_reached_def timeoutMs_def)
  have x: "of_int (t_tick c - start_time w) \<ge> timeout cfg * 1000"
    if "timeout cfg = of_int n" "\<bar>n\<bar> * 1000 < 2 ^ 53" for n
    using d that timeoutMs_whole_seconds [OF that(2)] by (auto simp: dle_def)
  show ?thesis using t c d x by blast
qed

theorem timeout_only_after_budget_witness:
  "opt_timeout ex_options = Some (JNum 120)
   \<and> (\<exists>c \<in> set [ex_cycle 60000 (Response 200 ''OK'' ''{}''),
                   ex_cycle 120000 (Response 200 ''OK'' ''{}'')].
         of_int (t_tick c - 0) \<ge> (120::rat) * 1000 \<and> (120::rat) = round1 (t_tick c - 0))"
proof -
  have "Timeout 120 1 \<in> set (resolutions \<lparr> timer = False, attempts = 1,
          requests = [(''http://host/messages'', [], 5000)],
          resolutions = [Timeout 120 1], console = [] \<rparr>)"
    by simp
  from timeout_only_after_budget [OF ex_timeout_run this]
  show ?thesis by (simp add: ex_defs dle_def)
qed

section \<open>What the outcome depends on\<close>

text \<open>
  Claim C8, at the failing input. With type, meta and clock fixed, a message whose data is
  the string "X" is delivered, while the same message with data 0, the empty string or
  false is treated as structurally invalid and nothing is resolved.
\<close>

theorem falsy_data_not_accepted:
  "resolutions (callback (\<lambda>body. Inr (JObj [(''k1'', ex_message (JStr ''X''))])) ex_config ''k1'' 0
      (ex_cycle 5000 (Response 200 ''OK'' ''body'')) (initial []))
     = [Success (JStr ''X'') ex_meta 5 1]
   \<and> resolutions (callback (\<lambda>body. Inr (JObj [(''k1'', ex_message (JNum 0))])) ex_config ''k1'' 0
      (ex_cycle 5000 (Response 200 ''OK'' ''body'')) (initial []))
     = []
   \<and> resolutions (callback (\<lambda>body. Inr (JObj [(''k1'', ex_message (JStr ''''))])) ex_config ''k1'' 0
      (ex_cycle 5000 (Response 200 ''OK'' ''body'')) (initial []))
     = []
   \<and> resolutions (callback (\<lambda>body. Inr (JObj [(''k1'', ex_message (JBool False))])) ex_config ''k1'' 0
      (ex_cycle 5000 (Response 200 ''OK'' ''body'')) (initial []))
     = []"
  by (simp add: run_defs)

theorem falsy_data_not_accepted_witness:
  "resolutions (callback (\<lambda>body. Inr (JObj [(''k1'', ex_message (JStr ''X''))])) ex_config ''k1'' 0
      (ex_cycle 5000 (Response 200 ''OK'' ''body'')) (initial []))
   \<noteq> resolutions (callback (\<lambda>body. Inr (JObj [(''k1'', ex_message (JNum 0))])) ex_config ''k1'' 0
      (ex_cycle 5000 (Response 200 ''OK'' ''body'')) (initial []))"
  using falsy_data_not_accepted by simp

text \<open>
  Claim C9, at the failing input. The endpoint answers with the body null and the key is
  "parse". Without debug the read of the key throws a TypeError whose message quotes the
  key, which the catch clause takes for a parse error: the call is rejected. With debug
  the listing of the keys throws first, with a message that mentions neither word: polling
  goes on and ends with the timeout.
\<close>

theorem debug_changes_outcome:
  "listenFrom (ex_world JNull [ex_cycle 10000 (Response 200 ''OK'' ''null''),
                               ex_cycle 120000 (Response 200 ''OK'' ''null'')])
       (Some (JStr ''parse'')) ex_options
     = Inr \<lparr> timer = False, attempts = 1, requests = [(''http://host/messages'', [], 5000)],
             resolutions = [Rejected (typeError_read_null ''parse'')], console = [] \<rparr>
   \<and> resolutions (case_sum (\<lambda>e. initial []) id
        (listenFrom (ex_world JNull [ex_cycle 10000 (Response 200 ''OK'' ''null''),
                               ex_cycle 120000 (Response 200 ''OK'' ''null'')])
           (Some (JStr ''parse'')) (ex_options\<lparr>opt_debug := True\<rparr>)))
     = [Timeout 120 1]"
  by (simp add: run_defs typeError_read_null_def typeError_keys_null_def)

theorem debug_changes_outcome_witness:
  "resolutions (case_sum (\<lambda>e. initial []) id
        (listenFrom (ex_world JNull [ex_cycle 10000 (Response 200 ''OK'' ''null''),
                               ex_cycle 120000 (Response 200 ''OK'' ''null'')])
           (Some (JStr ''parse'')) ex_options))
   \<noteq> resolutions (case_sum (\<lambda>e. initial []) id
        (listenFrom (ex_world JNull [ex_cycle 10000 (Response 200 ''OK'' ''null''),
                               ex_cycle 120000 (Response 200 ''OK'' ''null'')])
           (Some (JStr ''parse'')) (ex_options\<lparr>opt_debug := True\<rparr>)))"
  using debug_changes_outcome by simp

end
